theory Spec2Isabelle
  imports Main "HOL-Library.Sublist"
begin

section \<open>Errors raised by the modelled JavaScript\<close>

text \<open>
  A \<^verbatim>\<open>throw\<close> is a value: every function that can raise returns \<open>error + 'a\<close>,
  with \<open>Inl\<close> for the raised error.
  \<^item> \<open>Error msg\<close> is \<^verbatim>\<open>new Error(msg)\<close>;
  \<^item> \<open>TypeError\<close> is what the engine raises when a property of \<^verbatim>\<open>undefined\<close> is read
    (its message is engine specific and not modelled);
  \<^item> \<open>SyntaxError\<close> is what \<^verbatim>\<open>response.json()\<close> rejects with when the body is not JSON.
\<close>

datatype error = Error string | TypeError | SyntaxError

section \<open>Array primitives\<close>

text \<open>
  \<^verbatim>\<open>Array.prototype.findIndex\<close>: the index of the first element that satisfies the
  predicate, scanning from index 0 upwards, and \<open>-1\<close> when there is none.
\<close>

fun findIndexFrom :: "nat \<Rightarrow> ('a \<Rightarrow> bool) \<Rightarrow> 'a list \<Rightarrow> int" where
  "findIndexFrom k P [] = - 1"
| "findIndexFrom k P (x # xs) = (if P x then int k else findIndexFrom (Suc k) P xs)"

definition findIndex :: "('a \<Rightarrow> bool) \<Rightarrow> 'a list \<Rightarrow> int" where
  "findIndex P xs = findIndexFrom 0 P xs"

text \<open>
  \<^verbatim>\<open>xs[i]\<close> for an integer \<open>i\<close>: the element when \<open>0 \<le> i < xs.length\<close>, and
  \<^verbatim>\<open>undefined\<close> (\<open>None\<close>) otherwise; in particular \<^verbatim>\<open>xs[-1]\<close> is \<^verbatim>\<open>undefined\<close>.
\<close>

definition at :: "'a list \<Rightarrow> int \<Rightarrow> 'a option" where
  "at xs i = (if 0 \<le> i \<and> i < int (length xs) then Some (xs ! nat i) else None)"

text \<open>
  \<^verbatim>\<open>xs.splice(start, deleteCount)\<close> without inserted elements, as the array it leaves
  behind: a negative \<open>start\<close> counts from the end, and both bounds are clamped.
\<close>

definition splice' :: "'a list \<Rightarrow> int \<Rightarrow> nat \<Rightarrow> 'a list" where
  "splice' xs start deleteCount =
     (let len = int (length xs);
          from = nat (if start < 0 then max (len + start) 0 else min start len)
      in take from xs @ drop (from + deleteCount) xs)"

section \<open>Numbers\<close>

text \<open>
  A JavaScript number is an IEEE 754 double. The model keeps the integers among them:
  a number is an \<open>int\<close>, and the result of \<^verbatim>\<open>++\<close> and \<^verbatim>\<open>--\<close> is the exact sum rounded
  to the nearest double, ties to the even significand. A double has a significand of 53
  bits, so every integer of magnitude up to \<open>2^53\<close> is a double, and from there on the
  doubles are the multiples of \<open>ulp\<close>: of 2 up to \<open>2^54\<close>, of 4 up to \<open>2^55\<close>, and so
  on. Numbers that are not integers are not modelled.
\<close>

fun ulp :: "nat \<Rightarrow> nat" where
  "ulp a = (if a < 2 ^ 53 then 1 else 2 * ulp (a div 2))"

definition roundToDouble :: "int \<Rightarrow> int" where
  "roundToDouble x =
     (let a = nat \<bar>x\<bar>;
          u = ulp a;
          m = a div u;
          r = a mod u;
          m' = (if 2 * r < u \<or> (2 * r = u \<and> even m) then m else m + 1)
      in sgn x * int (m' * u))"

section \<open>The cart slice\<close>

text \<open>
  \<^verbatim>\<open>CartItem = {id, title, price, quantity}\<close> and the payload of \<^verbatim>\<open>addToCart\<close>,
  \<^verbatim>\<open>{id, title, price}\<close>. The item is the payload extended by \<open>quantity\<close>, which is what
  \<^verbatim>\<open>{...action.payload, quantity: 1}\<close> builds. The field \<^verbatim>\<open>id\<close> is written \<open>id'\<close>.

  The reducers copy \<open>price\<close> and never compute with it, so its type is a parameter
  \<open>'n\<close>. \<open>quantity\<close> is a number the reducers compute with: \<^verbatim>\<open>quantity++\<close> stores
  \<open>roundToDouble (quantity + 1)\<close> and \<^verbatim>\<open>quantity--\<close> stores
  \<open>roundToDouble (quantity - 1)\<close>.
\<close>

record 'n Payload =
  id' :: string
  title :: string
  price :: 'n

record 'n CartItem = "'n Payload" +
  quantity :: int

record 'n CartState =
  items :: "'n CartItem list"

definition initialState :: "'n CartState" where
  "initialState = \<lparr>items = []\<rparr>"

text \<open>A cart used for the examples: one bolt, then two widgets.\<close>

definition exampleCart :: "int CartState" where
  "exampleCart =
     \<lparr>items = [\<lparr>id' = ''b'', title = ''Bolt'', price = 150, quantity = 1\<rparr>,
               \<lparr>id' = ''a'', title = ''Widget'', price = 999, quantity = 2\<rparr>]\<rparr>"

text \<open>A cart with one item, of the given quantity.\<close>

definition widgets :: "int \<Rightarrow> int CartState" where
  "widgets q = \<lparr>items = [\<lparr>id' = ''a'', title = ''Widget'', price = 999, quantity = q\<rparr>]\<rparr>"

text \<open>
  The slice's reducers run on a draft and the slice installs the mutated draft as the next
  state: the model returns the next state. Reading \<^verbatim>\<open>.quantity\<close> of
  \<^verbatim>\<open>state.items[itemIndex]\<close> raises \<open>TypeError\<close> when that element is \<^verbatim>\<open>undefined\<close>.
\<close>

definition addToCart :: "'n CartState \<Rightarrow> 'n Payload \<Rightarrow> error + 'n CartState" where
  "addToCart state payload =
     (let itemIndex = findIndex (\<lambda>item. id' item = id' payload) (items state)
      in if itemIndex \<ge> 0 then
           (case at (items state) itemIndex of
              None \<Rightarrow> Inl TypeError
            | Some item \<Rightarrow>
                Inr (state\<lparr>items := (items state)[nat itemIndex :=
                       item\<lparr>quantity := roundToDouble (quantity item + 1)\<rparr>]\<rparr>))
         else
           Inr (state\<lparr>items := items state @
                  [\<lparr>id' = id' payload, title = title payload, price = price payload, quantity = 1\<rparr>]\<rparr>))"

definition removeFromCart :: "'n CartState \<Rightarrow> string \<Rightarrow> error + 'n CartState" where
  "removeFromCart state payload =
     (let itemIndex = findIndex (\<lambda>item. id' item = payload) (items state)
      in case at (items state) itemIndex of
           None \<Rightarrow> Inl TypeError
         | Some item \<Rightarrow>
             if quantity item = 1 then
               Inr (state\<lparr>items := splice' (items state) itemIndex 1\<rparr>)
             else
               Inr (state\<lparr>items := (items state)[nat itemIndex :=
                      item\<lparr>quantity := roundToDouble (quantity item - 1)\<rparr>]\<rparr>))"

text \<open>
  The actions of the slice (\<^verbatim>\<open>cartSlice.actions\<close>) and the dispatch of a sequence of
  them from a state; a raised error ends the run.
\<close>

datatype 'n CartAction = AddToCart "'n Payload" | RemoveFromCart string

fun cartReducer :: "'n CartState \<Rightarrow> 'n CartAction \<Rightarrow> error + 'n CartState" where
  "cartReducer state (AddToCart payload) = addToCart state payload"
| "cartReducer state (RemoveFromCart payload) = removeFromCart state payload"

fun dispatchAll :: "'n CartState \<Rightarrow> 'n CartAction list \<Rightarrow> error + 'n CartState" where
  "dispatchAll state [] = Inr state"
| "dispatchAll state (a # as) =
     (case cartReducer state a of Inl e \<Rightarrow> Inl e | Inr state' \<Rightarrow> dispatchAll state' as)"

section \<open>The timers reducer\<close>

record 'n Timer =
  name :: string
  duration :: 'n

record 'n TimersState =
  isRunning :: bool
  timers :: "'n Timer list"

definition initialTimersState :: "'n TimersState" where
  "initialTimersState = \<lparr>isRunning = True, timers = []\<rparr>"

text \<open>
  An action as the reducer receives it at run time: the discriminant \<^verbatim>\<open>type\<close> is a
  string and \<^verbatim>\<open>payload\<close> may be absent. The declared union
  \<^verbatim>\<open>StartTimersAction | StopTimersAction | AddTimerAction\<close> is \<open>declared\<close>: one of
  the three discriminants, and a payload with \<^verbatim>\<open>'ADD_TIMER'\<close>.
\<close>

record 'n Action =
  type :: string
  payload :: "'n Timer option"

definition declared :: "'n Action \<Rightarrow> bool" where
  "declared action =
     (type action = ''START_TIMERS'' \<or>
      type action = ''STOP_TIMERS'' \<or>
      (type action = ''ADD_TIMER'' \<and> payload action \<noteq> None))"

definition timersReducer :: "'n TimersState \<Rightarrow> 'n Action \<Rightarrow> error + 'n TimersState" where
  "timersReducer state action =
     (if type action = ''START_TIMERS'' then Inr (state\<lparr>isRunning := True\<rparr>)
      else if type action = ''STOP_TIMERS'' then Inr (state\<lparr>isRunning := False\<rparr>)
      else if type action = ''ADD_TIMER'' then
        (case payload action of
           None \<Rightarrow> Inl TypeError
         | Some p \<Rightarrow> Inr (state\<lparr>timers := timers state @ [\<lparr>name = name p, duration = duration p\<rparr>]\<rparr>))
      else Inr state)"

text \<open>
  Dispatching a sequence of actions to the reducer, as \<^verbatim>\<open>useReducer\<close> does one
  action after the other.
\<close>

fun timersDispatchAll :: "'n TimersState \<Rightarrow> 'n Action list \<Rightarrow> error + 'n TimersState" where
  "timersDispatchAll state [] = Inr state"
| "timersDispatchAll state (a # as) =
     (case timersReducer state a of Inl e \<Rightarrow> Inl e | Inr state' \<Rightarrow> timersDispatchAll state' as)"

section \<open>The fetch helper\<close>

text \<open>
  What \<^verbatim>\<open>get\<close> sees of the platform. A \<open>Response\<close> has the flag \<^verbatim>\<open>ok\<close> and the outcome
  of \<^verbatim>\<open>response.json()\<close>: the parsed body, or the error that promise rejects with.
  A \<open>Network\<close> lists the response each reachable URL answers with and logs the requests
  issued; \<^verbatim>\<open>fetch\<close> of a URL that does not answer rejects with \<open>TypeError\<close>.
\<close>

record 'a Response =
  ok :: bool
  json :: "error + 'a"

record 'a Network =
  respond :: "(string \<times> 'a Response) list"
  requests :: "string list"

definition fetch :: "'a Network \<Rightarrow> string \<Rightarrow> 'a Network \<times> (error + 'a Response)" where
  "fetch net url =
     (net\<lparr>requests := requests net @ [url]\<rparr>,
      case map_of (respond net) url of None \<Rightarrow> Inl TypeError | Some response \<Rightarrow> Inr response)"

text \<open>
  \<^verbatim>\<open>get\<close> is an \<^verbatim>\<open>async\<close> function: a rejected \<^verbatim>\<open>await fetch(url)\<close> rejects it, and
  since it returns the promise of \<^verbatim>\<open>response.json()\<close> it settles as that promise does.
\<close>

definition get :: "'a Network \<Rightarrow> string \<Rightarrow> 'a Network \<times> (error + 'a)" where
  "get net url =
     (case fetch net url of
        (net', Inl e) \<Rightarrow> (net', Inl e)
      | (net', Inr response) \<Rightarrow>
          if \<not> ok response then (net', Inl (Error ''Failed to fetch data.''))
          else (net', json response))"

section \<open>Facts about numbers\<close>

declare ulp.simps [simp del]

lemma ulp_small: "a < 2 ^ 53 \<Longrightarrow> ulp a = 1"
  by (simp add: ulp.simps)

lemma ulp_pos: "0 < ulp a"
  by (induction a rule: ulp.induct) (subst ulp.simps, simp)

lemma ulp_le: "0 < a \<Longrightarrow> ulp a \<le> a"
proof (induction a rule: ulp.induct)
  case (1 a)
  show ?case
  proof (cases "a < 2 ^ 53")
    case True
    with "1.prems" show ?thesis by (simp add: ulp_small)
  next
    case False
    then have "0 < a div 2" by simp
    with "1.IH" False have "ulp (a div 2) \<le> a div 2" by simp
    then have "2 * ulp (a div 2) \<le> a" by simp
    with False show ?thesis by (subst ulp.simps) simp
  qed
qed

text \<open>Integers of magnitude up to \<open>2^53\<close> are doubles: rounding leaves them as they are.\<close>

lemma roundToDouble_exact: "\<bar>x\<bar> \<le> 2 ^ 53 \<Longrightarrow> roundToDouble x = x"
proof (cases "nat \<bar>x\<bar> < 2 ^ 53")
  case True
  then have "ulp (nat \<bar>x\<bar>) = 1" by (rule ulp_small)
  then show ?thesis by (simp add: roundToDouble_def Let_def sgn_if)
next
  case False
  assume "\<bar>x\<bar> \<le> 2 ^ 53"
  with False have a: "nat \<bar>x\<bar> = 2 ^ 53" by (simp add: nat_le_iff not_less)
  have u: "ulp (2 ^ 53) = 2" by (simp add: ulp.simps)
  from a have "int (nat \<bar>x\<bar>) = int (2 ^ 53)" by (rule arg_cong)
  then have ax: "\<bar>x\<bar> = 2 ^ 53" by simp
  from a u have "roundToDouble x = sgn x * 2 ^ 53"
    by (simp add: roundToDouble_def Let_def)
  with ax show ?thesis by (simp add: sgn_if abs_if split: if_splits)
qed

text \<open>Rounding a positive integer never gives less than 1.\<close>

lemma roundToDouble_ge_1: "1 \<le> x \<Longrightarrow> 1 \<le> roundToDouble x"
proof -
  assume x: "1 \<le> x"
  define a where "a = nat \<bar>x\<bar>"
  define m where "m = a div ulp a"
  define m' where
    "m' = (if 2 * (a mod ulp a) < ulp a \<or> (2 * (a mod ulp a) = ulp a \<and> even m) then m else m + 1)"
  from x have a: "0 < a" by (simp add: a_def)
  from ulp_le[OF a] ulp_pos[of a] have "1 \<le> m"
    unfolding m_def by (simp add: Suc_le_eq div_greater_zero_iff)
  then have "1 \<le> m'" by (simp add: m'_def)
  with ulp_pos[of a] have "1 \<le> m' * ulp a" by (simp add: Suc_le_eq)
  then have "1 \<le> int (m' * ulp a)" by linarith
  moreover from x have "roundToDouble x = int (m' * ulp a)"
    by (simp add: roundToDouble_def Let_def a_def m_def m'_def sgn_if)
  ultimately show ?thesis by simp
qed

text \<open>The two roundings at the edge of the exact range that the examples use.\<close>

lemma roundToDouble_above_2_53: "roundToDouble (9007199254740992 + 1) = 9007199254740992"
proof -
  have "ulp 9007199254740993 = 2" by (simp add: ulp.simps)
  then show ?thesis by (simp add: roundToDouble_def)
qed

lemma roundToDouble_below_2_53_plus_2: "roundToDouble (9007199254740994 - 1) = 9007199254740992"
proof -
  have "ulp 9007199254740993 = 2" by (simp add: ulp.simps)
  then show ?thesis by (simp add: roundToDouble_def)
qed

text \<open>
  More roundings around \<open>2^53\<close>: a tie goes to the even significand, upwards from
  \<open>2^53 + 3\<close>; \<open>-2^53 - 1\<close> goes back to \<open>-2^53\<close>, and \<open>-2^53 + 1\<close> is exact.
\<close>

lemma roundToDouble_ties:
  "roundToDouble (9007199254740994 + 1) = 9007199254740996"
  "roundToDouble (- 9007199254740992 - 1) = - 9007199254740992"
  "roundToDouble (- 9007199254740992 + 1) = - 9007199254740991"
proof -
  have u: "ulp 9007199254740995 = 2" "ulp 9007199254740993 = 2"
    by (simp_all add: ulp.simps)
  show "roundToDouble (9007199254740994 + 1) = 9007199254740996"
    using u by (simp add: roundToDouble_def)
  show "roundToDouble (- 9007199254740992 - 1) = - 9007199254740992"
    using u by (simp add: roundToDouble_def)
  show "roundToDouble (- 9007199254740992 + 1) = - 9007199254740991"
    by (simp add: roundToDouble_exact)
qed

section \<open>Facts about the array primitives\<close>

lemma findIndexFrom_none: "\<forall>x \<in> set xs. \<not> P x \<Longrightarrow> findIndexFrom k P xs = - 1"
  by (induction xs arbitrary: k) auto

lemma findIndexFrom_first:
  "\<exists>x \<in> set xs. P x \<Longrightarrow> findIndexFrom k P xs = int (k + length (takeWhile (\<lambda>x. \<not> P x) xs))"
proof (induction xs arbitrary: k)
  case Nil
  then show ?case by simp
next
  case (Cons a xs)
  show ?case
  proof (cases "P a")
    case True
    then show ?thesis by simp
  next
    case False
    with Cons.prems have "\<exists>x \<in> set xs. P x" by auto
    from Cons.IH[OF this, of "Suc k"] False show ?thesis by simp
  qed
qed

lemma findIndex_none: "\<forall>x \<in> set xs. \<not> P x \<Longrightarrow> findIndex P xs = - 1"
  by (simp add: findIndex_def findIndexFrom_none)

lemma findIndex_first:
  "\<exists>x \<in> set xs. P x \<Longrightarrow> findIndex P xs = int (length (takeWhile (\<lambda>x. \<not> P x) xs))"
  by (simp add: findIndex_def findIndexFrom_first)

text \<open>The position \<open>findIndex\<close> returns is the first match.\<close>

lemma findIndex_spec:
  "(findIndex P xs = - 1 \<and> (\<forall>x \<in> set xs. \<not> P x)) \<or>
   (\<exists>k < length xs. findIndex P xs = int k \<and> P (xs ! k) \<and> (\<forall>j < k. \<not> P (xs ! j)))"
proof (cases "\<exists>x \<in> set xs. P x")
  case False
  then show ?thesis using findIndex_none[of xs P] by blast
next
  case True
  define k where "k = length (takeWhile (\<lambda>x. \<not> P x) xs)"
  have lt: "k < length xs"
    unfolding k_def using True by (induction xs) auto
  have hit: "P (xs ! k)"
    using lt nth_length_takeWhile[of "\<lambda>x. \<not> P x" xs] unfolding k_def by blast
  have before: "\<forall>j < k. \<not> P (xs ! j)"
    unfolding k_def using takeWhile_nth nth_mem set_takeWhileD by metis
  show ?thesis
    using lt hit before findIndex_first[OF True] k_def by auto
qed

lemma at_nat: "k < length xs \<Longrightarrow> at xs (int k) = Some (xs ! k)"
  by (simp add: at_def)

lemma at_neg: "i < 0 \<Longrightarrow> at xs i = None"
  by (simp add: at_def)

lemma splice'_one: "k < length xs \<Longrightarrow> splice' xs (int k) (Suc 0) = take k xs @ drop (Suc k) xs"
  by (simp add: splice'_def Let_def min_def)

section \<open>What the cart reducers compute\<close>

lemma addToCart_absent:
  assumes "\<forall>item \<in> set (items s). id' item \<noteq> id' p"
  shows "addToCart s p =
           Inr (s\<lparr>items := items s @ [\<lparr>id' = id' p, title = title p, price = price p, quantity = 1\<rparr>]\<rparr>)"
  using findIndex_none[of "items s" "\<lambda>item. id' item = id' p"] assms
  by (simp add: addToCart_def)

lemma addToCart_present:
  assumes "k < length (items s)" "id' (items s ! k) = id' p" "\<forall>j < k. id' (items s ! j) \<noteq> id' p"
  shows "addToCart s p =
           Inr (s\<lparr>items := (items s)[k := (items s ! k)
                  \<lparr>quantity := roundToDouble (quantity (items s ! k) + 1)\<rparr>]\<rparr>)"
proof -
  let ?P = "\<lambda>item. id' item = id' p"
  consider (absent) "\<forall>x \<in> set (items s). \<not> ?P x"
    | (present) k' where "k' < length (items s)" "findIndex ?P (items s) = int k'"
        "?P (items s ! k')" "\<forall>j < k'. \<not> ?P (items s ! j)"
    using findIndex_spec[of ?P "items s"] by blast
  then show ?thesis
  proof cases
  case absent
  with assms show ?thesis by (metis nth_mem)
next
  case present
  have "k' = k"
    using assms present by (metis linorder_neqE_nat)
  with present assms show ?thesis
    by (simp add: addToCart_def at_nat)
  qed
qed

lemma removeFromCart_absent:
  assumes "\<forall>item \<in> set (items s). id' item \<noteq> i"
  shows "removeFromCart s i = Inl TypeError"
  using findIndex_none[of "items s" "\<lambda>item. id' item = i"] assms
  by (simp add: removeFromCart_def at_neg)

lemma removeFromCart_present:
  assumes "k < length (items s)" "id' (items s ! k) = i" "\<forall>j < k. id' (items s ! j) \<noteq> i"
  shows "removeFromCart s i =
           Inr (s\<lparr>items := (if quantity (items s ! k) = 1 then take k (items s) @ drop (Suc k) (items s)
                             else (items s)[k := (items s ! k)
                                    \<lparr>quantity := roundToDouble (quantity (items s ! k) - 1)\<rparr>])\<rparr>)"
proof -
  let ?P = "\<lambda>item. id' item = i"
  consider (absent) "\<forall>x \<in> set (items s). \<not> ?P x"
    | (present) k' where "k' < length (items s)" "findIndex ?P (items s) = int k'"
        "?P (items s ! k')" "\<forall>j < k'. \<not> ?P (items s ! j)"
    using findIndex_spec[of ?P "items s"] by blast
  then show ?thesis
  proof cases
  case absent
  with assms show ?thesis by (metis nth_mem)
next
  case present
  have "k' = k"
    using assms present by (metis linorder_neqE_nat)
  with present assms show ?thesis
    by (simp add: removeFromCart_def at_nat splice'_one)
  qed
qed

text \<open>The first item with a given id, for a cart that has one.\<close>

lemma first_with_id:
  assumes "i \<in> id' ` set xs"
  obtains k where "k < length xs" "id' (xs ! k) = i" "\<forall>j < k. id' (xs ! j) \<noteq> i"
  using findIndex_spec[of "\<lambda>item. id' item = i" xs] assms that by blast

section \<open>Claims about the cart slice\<close>

text \<open>
  C1, as it is stated, fails: on a cart whose widget has the quantity \<open>2^53\<close>,
  \<^verbatim>\<open>addToCart\<close> of that widget leaves the quantity at \<open>2^53\<close>, since \<open>2^53 + 1\<close> is no
  double, and so returns the cart as it was.
\<close>

theorem addToCart_quantity_not_incremented:
  "addToCart (widgets 9007199254740992) \<lparr>id' = ''a'', title = ''Widget'', price = 999\<rparr> =
     Inr (widgets 9007199254740992) \<and>
   widgets 9007199254740992 \<noteq> widgets (9007199254740992 + 1)"
proof -
  have "findIndex (\<lambda>item. id' item = ''a'') (items (widgets 9007199254740992)) = 0"
    by (simp add: widgets_def findIndex_def)
  then have "addToCart (widgets 9007199254740992) \<lparr>id' = ''a'', title = ''Widget'', price = 999\<rparr> =
      Inr (widgets 9007199254740992)"
    using roundToDouble_above_2_53 by (simp add: addToCart_def at_def widgets_def)
  then show ?thesis by (simp add: widgets_def)
qed

text \<open>
  C1, amended. For every cart state and every payload \<open>(id, title, price)\<close> of
  \<^verbatim>\<open>addToCart\<close>: when the cart has an item with that id, the next state is the old one
  with the quantity of that item (the first with that id, at index \<open>k\<close>) replaced by the
  double nearest to that quantity plus 1 and nothing else changed, and this is the
  quantity incremented by 1 whenever the quantity is an integer of magnitude below
  \<open>2^53\<close>; otherwise the next state is the old one with the new item
  \<open>{id, title, price, quantity: 1}\<close> appended at the end.
\<close>

theorem addToCart_increments_or_appends:
  "(id' p \<in> id' ` set (items s) \<longrightarrow>
      (\<exists>k < length (items s).
         id' (items s ! k) = id' p \<and> (\<forall>j < k. id' (items s ! j) \<noteq> id' p) \<and>
         addToCart s p =
           Inr (s\<lparr>items := (items s)[k := (items s ! k)
                  \<lparr>quantity := roundToDouble (quantity (items s ! k) + 1)\<rparr>]\<rparr>) \<and>
         (\<bar>quantity (items s ! k)\<bar> < 2 ^ 53 \<longrightarrow>
            addToCart s p =
              Inr (s\<lparr>items := (items s)[k := (items s ! k)
                     \<lparr>quantity := quantity (items s ! k) + 1\<rparr>]\<rparr>)))) \<and>
   (id' p \<notin> id' ` set (items s) \<longrightarrow>
      addToCart s p =
        Inr (s\<lparr>items := items s @ [\<lparr>id' = id' p, title = title p, price = price p, quantity = 1\<rparr>]\<rparr>))"
proof (intro conjI impI)
  assume "id' p \<in> id' ` set (items s)"
  then obtain k where k: "k < length (items s)" "id' (items s ! k) = id' p"
      "\<forall>j < k. id' (items s ! j) \<noteq> id' p"
    by (rule first_with_id)
  have r: "addToCart s p =
      Inr (s\<lparr>items := (items s)[k := (items s ! k)
             \<lparr>quantity := roundToDouble (quantity (items s ! k) + 1)\<rparr>]\<rparr>)"
    by (rule addToCart_present[OF k])
  have "\<bar>quantity (items s ! k)\<bar> < 2 ^ 53 \<longrightarrow>
      roundToDouble (quantity (items s ! k) + 1) = quantity (items s ! k) + 1"
  proof
    assume "\<bar>quantity (items s ! k)\<bar> < 2 ^ 53"
    then have "\<bar>quantity (items s ! k) + 1\<bar> \<le> 2 ^ 53" by linarith
    then show "roundToDouble (quantity (items s ! k) + 1) = quantity (items s ! k) + 1"
      by (rule roundToDouble_exact)
  qed
  with r k
  show "\<exists>k < length (items s).
         id' (items s ! k) = id' p \<and> (\<forall>j < k. id' (items s ! j) \<noteq> id' p) \<and>
         addToCart s p =
           Inr (s\<lparr>items := (items s)[k := (items s ! k)
                  \<lparr>quantity := roundToDouble (quantity (items s ! k) + 1)\<rparr>]\<rparr>) \<and>
         (\<bar>quantity (items s ! k)\<bar> < 2 ^ 53 \<longrightarrow>
            addToCart s p =
              Inr (s\<lparr>items := (items s)[k := (items s ! k)
                     \<lparr>quantity := quantity (items s ! k) + 1\<rparr>]\<rparr>))"
    by auto
next
  assume "id' p \<notin> id' ` set (items s)"
  then have "\<forall>item \<in> set (items s). id' item \<noteq> id' p" by (metis imageI)
  then show "addToCart s p =
        Inr (s\<lparr>items := items s @ [\<lparr>id' = id' p, title = title p, price = price p, quantity = 1\<rparr>]\<rparr>)"
    by (rule addToCart_absent)
qed

theorem addToCart_increments_or_appends_witness:
  "id' \<lparr>id' = ''a'', title = ''Widget'', price = 999 :: int\<rparr>
     \<in> id' ` set (items exampleCart) \<and>
   \<bar>quantity (items exampleCart ! 1)\<bar> < 2 ^ 53 \<and>
   addToCart exampleCart
             \<lparr>id' = ''a'', title = ''Widget'', price = 999 :: int\<rparr> =
     Inr \<lparr>items = [\<lparr>id' = ''b'', title = ''Bolt'', price = 150, quantity = 1\<rparr>,
                   \<lparr>id' = ''a'', title = ''Widget'', price = 999, quantity = 3\<rparr>]\<rparr> \<and>
   id' \<lparr>id' = ''c'', title = ''Cog'', price = 75 :: int\<rparr>
     \<notin> id' ` set (items exampleCart) \<and>
   addToCart exampleCart
             \<lparr>id' = ''c'', title = ''Cog'', price = 75 :: int\<rparr> =
     Inr \<lparr>items = [\<lparr>id' = ''b'', title = ''Bolt'', price = 150, quantity = 1\<rparr>,
                   \<lparr>id' = ''a'', title = ''Widget'', price = 999, quantity = 2\<rparr>,
                   \<lparr>id' = ''c'', title = ''Cog'', price = 75, quantity = 1\<rparr>]\<rparr>"
proof -
  let ?s = "exampleCart"
  have s: "items ?s = [\<lparr>id' = ''b'', title = ''Bolt'', price = 150, quantity = 1\<rparr>,
                       \<lparr>id' = ''a'', title = ''Widget'', price = 999, quantity = 2\<rparr>]"
    by (simp add: exampleCart_def)
  let ?a = "\<lparr>id' = ''a'', title = ''Widget'', price = 999 :: int\<rparr>"
  let ?c = "\<lparr>id' = ''c'', title = ''Cog'', price = 75 :: int\<rparr>"
  have ha: "id' ?a \<in> id' ` set (items ?s)" by (simp add: s)
  have hq: "\<bar>quantity (items ?s ! 1)\<bar> < 2 ^ 53" by (simp add: s)
  have hc: "id' ?c \<notin> id' ` set (items ?s)" by (simp add: s)
  from addToCart_increments_or_appends[of ?a ?s] ha
  obtain k where k: "k < length (items ?s)" "id' (items ?s ! k) = id' ?a"
    and r: "\<bar>quantity (items ?s ! k)\<bar> < 2 ^ 53 \<longrightarrow>
      addToCart ?s ?a =
        Inr (?s\<lparr>items := (items ?s)[k := (items ?s ! k)\<lparr>quantity := quantity (items ?s ! k) + 1\<rparr>]\<rparr>)"
    by blast
  from k have "k = 1" by (cases k) (auto simp: s)
  with r hq have ra: "addToCart ?s ?a =
     Inr \<lparr>items = [\<lparr>id' = ''b'', title = ''Bolt'', price = 150, quantity = 1\<rparr>,
                   \<lparr>id' = ''a'', title = ''Widget'', price = 999, quantity = 3\<rparr>]\<rparr>"
    by (simp add: exampleCart_def)
  from addToCart_increments_or_appends[of ?c ?s] hc
  have rc: "addToCart ?s ?c =
     Inr \<lparr>items = [\<lparr>id' = ''b'', title = ''Bolt'', price = 150, quantity = 1\<rparr>,
                   \<lparr>id' = ''a'', title = ''Widget'', price = 999, quantity = 2\<rparr>,
                   \<lparr>id' = ''c'', title = ''Cog'', price = 75, quantity = 1\<rparr>]\<rparr>"
    by (simp add: exampleCart_def)
  from ha hq ra hc rc show ?thesis by blast
qed

text \<open>
  C2, as it is stated, fails: on a cart whose widget has the quantity \<open>2^53 + 2\<close>,
  \<^verbatim>\<open>removeFromCart\<close> of that widget leaves the quantity \<open>2^53\<close>, since \<open>2^53 + 1\<close> is no
  double, and not the quantity decremented by 1.
\<close>

theorem removeFromCart_quantity_not_decremented:
  "removeFromCart (widgets 9007199254740994) ''a'' = Inr (widgets 9007199254740992) \<and>
   widgets 9007199254740992 \<noteq> widgets (9007199254740994 - 1)"
proof -
  have "findIndex (\<lambda>item. id' item = ''a'') (items (widgets 9007199254740994)) = 0"
    by (simp add: widgets_def findIndex_def)
  then have "removeFromCart (widgets 9007199254740994) ''a'' = Inr (widgets 9007199254740992)"
    using roundToDouble_below_2_53_plus_2 by (simp add: removeFromCart_def at_def widgets_def)
  then show ?thesis by (simp add: widgets_def)
qed

text \<open>
  C2, amended. For every cart state that has an item with the given id,
  \<^verbatim>\<open>removeFromCart\<close> of that id returns the next state: with \<open>k\<close> the index of the first
  item with that id, the old state with that item deleted from the sequence when its
  quantity is 1, and otherwise the old state with that item's quantity replaced by the
  double nearest to that quantity minus 1, which is the quantity decremented by 1
  whenever the quantity is an integer of magnitude below \<open>2^53\<close>.
\<close>

theorem removeFromCart_deletes_or_decrements:
  "i \<in> id' ` set (items s) \<Longrightarrow>
     \<exists>k < length (items s).
       id' (items s ! k) = i \<and> (\<forall>j < k. id' (items s ! j) \<noteq> i) \<and>
       removeFromCart s i =
         Inr (s\<lparr>items :=
               (if quantity (items s ! k) = 1 then take k (items s) @ drop (Suc k) (items s)
                else (items s)[k := (items s ! k)
                       \<lparr>quantity := roundToDouble (quantity (items s ! k) - 1)\<rparr>])\<rparr>) \<and>
       (\<bar>quantity (items s ! k)\<bar> < 2 ^ 53 \<longrightarrow>
          removeFromCart s i =
            Inr (s\<lparr>items :=
                  (if quantity (items s ! k) = 1 then take k (items s) @ drop (Suc k) (items s)
                   else (items s)[k := (items s ! k)
                          \<lparr>quantity := quantity (items s ! k) - 1\<rparr>])\<rparr>))"
proof -
  assume "i \<in> id' ` set (items s)"
  then obtain k where k: "k < length (items s)" "id' (items s ! k) = i"
      "\<forall>j < k. id' (items s ! j) \<noteq> i"
    by (rule first_with_id)
  have r: "removeFromCart s i =
         Inr (s\<lparr>items :=
               (if quantity (items s ! k) = 1 then take k (items s) @ drop (Suc k) (items s)
                else (items s)[k := (items s ! k)
                       \<lparr>quantity := roundToDouble (quantity (items s ! k) - 1)\<rparr>])\<rparr>)"
    by (rule removeFromCart_present[OF k])
  have "\<bar>quantity (items s ! k)\<bar> < 2 ^ 53 \<longrightarrow>
      roundToDouble (quantity (items s ! k) - 1) = quantity (items s ! k) - 1"
  proof
    assume "\<bar>quantity (items s ! k)\<bar> < 2 ^ 53"
    then have "\<bar>quantity (items s ! k) - 1\<bar> \<le> 2 ^ 53" by linarith
    then show "roundToDouble (quantity (items s ! k) - 1) = quantity (items s ! k) - 1"
      by (rule roundToDouble_exact)
  qed
  with r k show ?thesis by auto
qed

theorem removeFromCart_deletes_or_decrements_witness:
  "''a'' \<in> id' ` set (items exampleCart) \<and>
   \<bar>quantity (items exampleCart ! 1)\<bar> < 2 ^ 53 \<and>
   removeFromCart exampleCart ''a'' =
     Inr \<lparr>items = [\<lparr>id' = ''b'', title = ''Bolt'', price = 150, quantity = 1\<rparr>,
                   \<lparr>id' = ''a'', title = ''Widget'', price = 999, quantity = 1\<rparr>]\<rparr> \<and>
   ''b'' \<in> id' ` set (items exampleCart) \<and>
   \<bar>quantity (items exampleCart ! 0)\<bar> < 2 ^ 53 \<and>
   removeFromCart exampleCart ''b'' =
     Inr \<lparr>items = [\<lparr>id' = ''a'', title = ''Widget'', price = 999, quantity = 2\<rparr>]\<rparr>"
proof -
  let ?s = "exampleCart"
  have s: "items ?s = [\<lparr>id' = ''b'', title = ''Bolt'', price = 150, quantity = 1\<rparr>,
                       \<lparr>id' = ''a'', title = ''Widget'', price = 999, quantity = 2\<rparr>]"
    by (simp add: exampleCart_def)
  have ha: "''a'' \<in> id' ` set (items ?s)" by (simp add: s)
  have hb: "''b'' \<in> id' ` set (items ?s)" by (simp add: s)
  have qa: "\<bar>quantity (items ?s ! 1)\<bar> < 2 ^ 53" by (simp add: s)
  have qb: "\<bar>quantity (items ?s ! 0)\<bar> < 2 ^ 53" by (simp add: s)
  from removeFromCart_deletes_or_decrements[OF ha]
  obtain k where k: "k < length (items ?s)" "id' (items ?s ! k) = ''a''"
    and r: "\<bar>quantity (items ?s ! k)\<bar> < 2 ^ 53 \<longrightarrow>
       removeFromCart ?s ''a'' =
         Inr (?s\<lparr>items :=
               (if quantity (items ?s ! k) = 1 then take k (items ?s) @ drop (Suc k) (items ?s)
                else (items ?s)[k := (items ?s ! k)\<lparr>quantity := quantity (items ?s ! k) - 1\<rparr>])\<rparr>)"
    by blast
  from k have "k = 1" by (cases k) (auto simp: s)
  with r qa have ra: "removeFromCart ?s ''a'' =
     Inr \<lparr>items = [\<lparr>id' = ''b'', title = ''Bolt'', price = 150, quantity = 1\<rparr>,
                   \<lparr>id' = ''a'', title = ''Widget'', price = 999, quantity = 1\<rparr>]\<rparr>"
    by (simp add: exampleCart_def)
  from removeFromCart_deletes_or_decrements[OF hb]
  obtain k' where k': "k' < length (items ?s)" "id' (items ?s ! k') = ''b''"
    and r': "\<bar>quantity (items ?s ! k')\<bar> < 2 ^ 53 \<longrightarrow>
       removeFromCart ?s ''b'' =
         Inr (?s\<lparr>items :=
               (if quantity (items ?s ! k') = 1 then take k' (items ?s) @ drop (Suc k') (items ?s)
                else (items ?s)[k' := (items ?s ! k')\<lparr>quantity := quantity (items ?s ! k') - 1\<rparr>])\<rparr>)"
    by blast
  from k' have "k' = 0" by (cases k') (auto simp: s)
  with r' qb have rb: "removeFromCart ?s ''b'' =
     Inr \<lparr>items = [\<lparr>id' = ''a'', title = ''Widget'', price = 999, quantity = 2\<rparr>]\<rparr>"
    by (simp add: exampleCart_def)
  from ha qa ra hb qb rb show ?thesis by blast
qed

text \<open>
  C10. For every cart state that has an item with the given id, \<^verbatim>\<open>removeFromCart\<close> of
  that id returns a state in which, for one index \<open>k\<close> of an item with that id, either
  that item is gone and all others are as before and in their order, or the sequence is
  as before except that the item at \<open>k\<close> has another quantity: its id, title and price,
  and every other item, are unchanged.
\<close>

theorem removeFromCart_frame:
  "i \<in> id' ` set (items s) \<Longrightarrow>
     \<exists>s' k. removeFromCart s i = Inr s' \<and> k < length (items s) \<and> id' (items s ! k) = i \<and>
       (items s' = take k (items s) @ drop (Suc k) (items s) \<or>
        (\<exists>q. items s' = (items s)[k := (items s ! k)\<lparr>quantity := q\<rparr>]))"
proof -
  assume "i \<in> id' ` set (items s)"
  then obtain k where k: "k < length (items s)" "id' (items s ! k) = i"
      "\<forall>j < k. id' (items s ! j) \<noteq> i"
    by (rule first_with_id)
  show ?thesis
  proof (cases "quantity (items s ! k) = 1")
    case True
    with removeFromCart_present[OF k]
    have "removeFromCart s i = Inr (s\<lparr>items := take k (items s) @ drop (Suc k) (items s)\<rparr>)"
      by simp
    with k show ?thesis by auto
  next
    case False
    with removeFromCart_present[OF k]
    have "removeFromCart s i =
            Inr (s\<lparr>items := (items s)[k := (items s ! k)
                   \<lparr>quantity := roundToDouble (quantity (items s ! k) - 1)\<rparr>]\<rparr>)"
      by simp
    with k show ?thesis by auto
  qed
qed

theorem removeFromCart_frame_witness:
  "''a'' \<in> id' ` set (items exampleCart) \<and>
   (\<exists>s' k. removeFromCart exampleCart ''a'' = Inr s' \<and>
      k < length (items exampleCart) \<and> id' (items exampleCart ! k) = ''a'' \<and>
      (items s' = take k (items exampleCart) @ drop (Suc k) (items exampleCart) \<or>
       (\<exists>q. items s' = (items exampleCart)[k := (items exampleCart ! k)\<lparr>quantity := q\<rparr>])))"
proof -
  have ha: "''a'' \<in> id' ` set (items exampleCart)"
    by (simp add: exampleCart_def)
  from removeFromCart_frame[OF ha] ha show ?thesis by blast
qed

section \<open>The cart invariant\<close>

text \<open>Identifiers pairwise distinct and every quantity at least 1.\<close>

lemma addToCart_preserves:
  assumes "distinct (map id' (items s))" "\<forall>item \<in> set (items s). 1 \<le> quantity item"
    and "addToCart s p = Inr s'"
  shows "distinct (map id' (items s')) \<and> (\<forall>item \<in> set (items s'). 1 \<le> quantity item)"
proof (cases "id' p \<in> id' ` set (items s)")
  case False
  then have "\<forall>item \<in> set (items s). id' item \<noteq> id' p" by (metis imageI)
  from addToCart_absent[OF this] assms False show ?thesis by auto
next
  case True
  then obtain k where k: "k < length (items s)" "id' (items s ! k) = id' p"
      "\<forall>j < k. id' (items s ! j) \<noteq> id' p"
    by (rule first_with_id)
  let ?y = "(items s ! k)\<lparr>quantity := roundToDouble (quantity (items s ! k) + 1)\<rparr>"
  from addToCart_present[OF k] assms(3) have s': "items s' = (items s)[k := ?y]" by auto
  have "map id' (items s') = (map id' (items s))[k := id' ?y]"
    by (simp add: s' map_update)
  also have "\<dots> = map id' (items s)"
    using k(1) by (simp add: list_update_same_conv)
  finally have d: "distinct (map id' (items s'))" using assms(1) by simp
  have "1 \<le> quantity (items s ! k)" using assms(2) k(1) by simp
  then have "1 \<le> quantity ?y" by (simp add: roundToDouble_ge_1)
  moreover have "set (items s') \<subseteq> insert ?y (set (items s))"
    unfolding s' by (rule set_update_subset_insert)
  ultimately have "\<forall>item \<in> set (items s'). 1 \<le> quantity item"
    using assms(2) by blast
  with d show ?thesis by simp
qed

lemma removeFromCart_preserves:
  assumes "distinct (map id' (items s))" "\<forall>item \<in> set (items s). 1 \<le> quantity item"
    and "removeFromCart s i = Inr s'"
  shows "distinct (map id' (items s')) \<and> (\<forall>item \<in> set (items s'). 1 \<le> quantity item)"
proof (cases "i \<in> id' ` set (items s)")
  case False
  then have "\<forall>item \<in> set (items s). id' item \<noteq> i" by (metis imageI)
  from removeFromCart_absent[OF this] assms(3) show ?thesis by simp
next
  case True
  then obtain k where k: "k < length (items s)" "id' (items s ! k) = i"
      "\<forall>j < k. id' (items s ! j) \<noteq> i"
    by (rule first_with_id)
  show ?thesis
  proof (cases "quantity (items s ! k) = 1")
    case True
    with removeFromCart_present[OF k] assms(3)
    have s': "items s' = take k (items s) @ drop (Suc k) (items s)" by auto
    have "map id' (items s') = take k (map id' (items s)) @ drop (Suc k) (map id' (items s))"
      by (simp add: s' take_map drop_map)
    moreover have "set (take k (map id' (items s))) \<inter> set (drop (Suc k) (map id' (items s))) = {}"
      using assms(1) by (simp add: set_take_disj_set_drop_if_distinct)
    ultimately have d: "distinct (map id' (items s'))"
      using assms(1) by simp
    have "set (items s') \<subseteq> set (items s)"
      unfolding s' using set_take_subset[of k "items s"] set_drop_subset[of "Suc k" "items s"] by auto
    with assms(2) d show ?thesis by blast
  next
    case False
    let ?y = "(items s ! k)\<lparr>quantity := roundToDouble (quantity (items s ! k) - 1)\<rparr>"
    from False removeFromCart_present[OF k] assms(3) have s': "items s' = (items s)[k := ?y]" by auto
    have "map id' (items s') = (map id' (items s))[k := id' ?y]"
      by (simp add: s' map_update)
    also have "\<dots> = map id' (items s)"
      using k(1) by (simp add: list_update_same_conv)
    finally have d: "distinct (map id' (items s'))" using assms(1) by simp
    have "1 \<le> quantity (items s ! k)" using assms(2) k(1) by simp
    with False have "1 \<le> quantity ?y" by (simp add: roundToDouble_ge_1)
    moreover have "set (items s') \<subseteq> insert ?y (set (items s))"
      unfolding s' by (rule set_update_subset_insert)
    ultimately have "\<forall>item \<in> set (items s'). 1 \<le> quantity item"
      using assms(2) by blast
    with d show ?thesis by simp
  qed
qed

lemma dispatchAll_preserves:
  "distinct (map id' (items s)) \<Longrightarrow> \<forall>item \<in> set (items s). 1 \<le> quantity item \<Longrightarrow>
   dispatchAll s as = Inr s' \<Longrightarrow>
   distinct (map id' (items s')) \<and> (\<forall>item \<in> set (items s'). 1 \<le> quantity item)"
proof (induction as arbitrary: s)
  case Nil
  then show ?case by simp
next
  case (Cons a as)
  from Cons.prems(3) obtain s1 where s1: "cartReducer s a = Inr s1" "dispatchAll s1 as = Inr s'"
    by (auto split: sum.splits)
  have "distinct (map id' (items s1)) \<and> (\<forall>item \<in> set (items s1). 1 \<le> quantity item)"
  proof (cases a)
    case (AddToCart p)
    with s1(1) addToCart_preserves[OF Cons.prems(1,2)] show ?thesis by simp
  next
    case (RemoveFromCart i)
    with s1(1) removeFromCart_preserves[OF Cons.prems(1,2)] show ?thesis by simp
  qed
  with Cons.IH[of s1] s1(2) show ?case by blast
qed

text \<open>
  C5. Every cart state reached from the empty initial state by \<^verbatim>\<open>addToCart\<close> and
  \<^verbatim>\<open>removeFromCart\<close> transitions that return has pairwise distinct item identifiers
  and only quantities of at least 1, so none of 0.
\<close>

theorem reachable_cart_invariant:
  "dispatchAll initialState as = Inr s \<Longrightarrow>
     distinct (map id' (items s)) \<and>
     (\<forall>item \<in> set (items s). 1 \<le> quantity item) \<and>
     (\<forall>item \<in> set (items s). quantity item \<noteq> 0)"
proof -
  assume run: "dispatchAll initialState as = Inr s"
  have "distinct (map id' (items (initialState :: 'a CartState)))"
    and "\<forall>item \<in> set (items (initialState :: 'a CartState)). 1 \<le> quantity item"
    by (simp_all add: initialState_def)
  from dispatchAll_preserves[OF this run] show ?thesis by auto
qed

theorem reachable_cart_invariant_witness:
  "dispatchAll initialState
     [AddToCart \<lparr>id' = ''a'', title = ''Widget'', price = 999 :: int\<rparr>,
      AddToCart \<lparr>id' = ''b'', title = ''Bolt'', price = 150\<rparr>,
      AddToCart \<lparr>id' = ''a'', title = ''Widget'', price = 999\<rparr>,
      RemoveFromCart ''b''] =
     Inr \<lparr>items = [\<lparr>id' = ''a'', title = ''Widget'', price = 999, quantity = 2\<rparr>]\<rparr> \<and>
   distinct (map id' (items \<lparr>items = [\<lparr>id' = ''a'', title = ''Widget'', price = 999 :: int, quantity = 2\<rparr>]\<rparr>)) \<and>
   list_all (\<lambda>item. 1 \<le> quantity item)
     (items \<lparr>items = [\<lparr>id' = ''a'', title = ''Widget'', price = 999 :: int, quantity = 2\<rparr>]\<rparr>)"
proof -
  have run: "dispatchAll initialState
     [AddToCart \<lparr>id' = ''a'', title = ''Widget'', price = 999 :: int\<rparr>,
      AddToCart \<lparr>id' = ''b'', title = ''Bolt'', price = 150\<rparr>,
      AddToCart \<lparr>id' = ''a'', title = ''Widget'', price = 999\<rparr>,
      RemoveFromCart ''b''] =
     Inr \<lparr>items = [\<lparr>id' = ''a'', title = ''Widget'', price = 999, quantity = 2\<rparr>]\<rparr>"
    by (simp add: initialState_def addToCart_def removeFromCart_def findIndex_def at_def
        splice'_def roundToDouble_exact)
  from reachable_cart_invariant[OF run] run show ?thesis by (simp add: list_all_iff)
qed

section \<open>Which reducer calls return\<close>

lemma addToCart_returns: "\<exists>s'. addToCart s p = Inr s'"
proof (cases "id' p \<in> id' ` set (items s)")
  case True
  then obtain k where "k < length (items s)" "id' (items s ! k) = id' p"
      "\<forall>j < k. id' (items s ! j) \<noteq> id' p"
    by (rule first_with_id)
  from addToCart_present[OF this] show ?thesis by blast
next
  case False
  then have "\<forall>item \<in> set (items s). id' item \<noteq> id' p" by (metis imageI)
  from addToCart_absent[OF this] show ?thesis by blast
qed

lemma removeFromCart_returns_iff:
  "(\<exists>s'. removeFromCart s i = Inr s') \<longleftrightarrow> i \<in> id' ` set (items s)"
proof (cases "i \<in> id' ` set (items s)")
  case True
  then obtain k where "k < length (items s)" "id' (items s ! k) = i"
      "\<forall>j < k. id' (items s ! j) \<noteq> i"
    by (rule first_with_id)
  from removeFromCart_present[OF this] True show ?thesis by blast
next
  case False
  then have "\<forall>item \<in> set (items s). id' item \<noteq> i" by (metis imageI)
  from removeFromCart_absent[OF this] False show ?thesis by simp
qed

lemma timersReducer_returns: "declared action \<Longrightarrow> \<exists>s'. timersReducer s action = Inr s'"
  by (auto simp: declared_def timersReducer_def)

text \<open>
  The two scenarios of the specification: a widget added twice and removed once leaves
  one widget of quantity 1; stopping the timers and adding one leaves them stopped, with
  that timer.
\<close>

lemma cart_scenario:
  "dispatchAll initialState
     [AddToCart \<lparr>id' = ''a'', title = ''Widget'', price = 999 :: int\<rparr>,
      AddToCart \<lparr>id' = ''a'', title = ''Widget'', price = 999\<rparr>,
      RemoveFromCart ''a''] =
     Inr \<lparr>items = [\<lparr>id' = ''a'', title = ''Widget'', price = 999, quantity = 1\<rparr>]\<rparr>"
  by (simp add: initialState_def addToCart_def removeFromCart_def findIndex_def at_def
      roundToDouble_exact)

lemma timers_scenario:
  "timersDispatchAll initialTimersState
     [\<lparr>type = ''STOP_TIMERS'', payload = None\<rparr>,
      \<lparr>type = ''ADD_TIMER'', payload = Some \<lparr>name = ''t1'', duration = 60 :: int\<rparr>\<rparr>] =
     Inr \<lparr>isRunning = False, timers = [\<lparr>name = ''t1'', duration = 60\<rparr>]\<rparr>"
  by (simp add: initialTimersState_def timersReducer_def)

text \<open>
  C3. The claim is that no reducer call raises, also not \<^verbatim>\<open>removeFromCart\<close> of an id
  that is not in the cart. The code at such a call: one widget is added and removed,
  and the second removal of the same id reads \<^verbatim>\<open>state.items[-1].quantity\<close> and raises.
\<close>

theorem removeFromCart_missing_id_raises:
  "dispatchAll initialState
     [AddToCart \<lparr>id' = ''a'', title = ''Widget'', price = 999 :: int\<rparr>,
      RemoveFromCart ''a'',
      RemoveFromCart ''a''] = Inl TypeError"
  by (simp add: initialState_def addToCart_def removeFromCart_def findIndex_def at_def
      splice'_def)

section \<open>Claims about the timers reducer\<close>

text \<open>
  C4. For every state and every action whose discriminant is none of
  \<^verbatim>\<open>'START_TIMERS'\<close>, \<^verbatim>\<open>'STOP_TIMERS'\<close> and \<^verbatim>\<open>'ADD_TIMER'\<close>, the reducer returns the
  state it was given.
\<close>

theorem timersReducer_unknown_action:
  "type action \<notin> {''START_TIMERS'', ''STOP_TIMERS'', ''ADD_TIMER''} \<Longrightarrow>
     timersReducer state action = Inr state"
  by (simp add: timersReducer_def)

theorem timersReducer_unknown_action_witness:
  "''RESET_TIMERS'' \<notin> {''START_TIMERS'', ''STOP_TIMERS'', ''ADD_TIMER''} \<and>
   timersReducer \<lparr>isRunning = True, timers = [\<lparr>name = ''t1'', duration = 60 :: int\<rparr>]\<rparr>
                 \<lparr>type = ''RESET_TIMERS'', payload = None\<rparr> =
     Inr \<lparr>isRunning = True, timers = [\<lparr>name = ''t1'', duration = 60\<rparr>]\<rparr>"
proof -
  have h: "type (\<lparr>type = ''RESET_TIMERS'', payload = None\<rparr> :: int Action)
             \<notin> {''START_TIMERS'', ''STOP_TIMERS'', ''ADD_TIMER''}"
    by simp
  from timersReducer_unknown_action[OF h] h show ?thesis by simp
qed

text \<open>
  C6. For every timers state, \<^verbatim>\<open>START_TIMERS\<close> returns a state with the run flag true
  and the same timer list, \<^verbatim>\<open>STOP_TIMERS\<close> one with the run flag false and the same
  timer list, and \<^verbatim>\<open>START_TIMERS\<close> followed by \<^verbatim>\<open>STOP_TIMERS\<close> one with the run flag
  false and the timer list of the first state.
\<close>

theorem start_stop_timers:
  "(\<exists>s'. timersReducer s \<lparr>type = ''START_TIMERS'', payload = p\<rparr> = Inr s' \<and>
          isRunning s' \<and> timers s' = timers s) \<and>
   (\<exists>s'. timersReducer s \<lparr>type = ''STOP_TIMERS'', payload = p\<rparr> = Inr s' \<and>
          \<not> isRunning s' \<and> timers s' = timers s) \<and>
   (\<exists>s'. timersDispatchAll s [\<lparr>type = ''START_TIMERS'', payload = p\<rparr>,
                               \<lparr>type = ''STOP_TIMERS'', payload = p\<rparr>] = Inr s' \<and>
          \<not> isRunning s' \<and> timers s' = timers s)"
  by (simp add: timersReducer_def)

text \<open>
  C7. For every timers state and every \<^verbatim>\<open>ADD_TIMER\<close> action with payload
  \<open>(name, duration)\<close>, the reducer returns a state whose timer list is the old list
  followed by the one new record \<open>{name, duration}\<close>, and whose run flag is the old one.
\<close>

theorem add_timer_appends:
  "\<exists>s'. timersReducer s \<lparr>type = ''ADD_TIMER'', payload = Some t\<rparr> = Inr s' \<and>
         timers s' = timers s @ [\<lparr>name = name t, duration = duration t\<rparr>] \<and>
         isRunning s' = isRunning s"
  by (simp add: timersReducer_def)

section \<open>Order of the collections\<close>

lemma addToCart_ids:
  assumes "addToCart s p = Inr s'"
  shows "map id' (items s') = map id' (items s) \<or> map id' (items s') = map id' (items s) @ [id' p]"
proof (cases "id' p \<in> id' ` set (items s)")
  case False
  then have "\<forall>item \<in> set (items s). id' item \<noteq> id' p" by (metis imageI)
  from addToCart_absent[OF this] assms show ?thesis by auto
next
  case True
  then obtain k where k: "k < length (items s)" "id' (items s ! k) = id' p"
      "\<forall>j < k. id' (items s ! j) \<noteq> id' p"
    by (rule first_with_id)
  let ?y = "(items s ! k)\<lparr>quantity := roundToDouble (quantity (items s ! k) + 1)\<rparr>"
  from addToCart_present[OF k] assms have s': "items s' = (items s)[k := ?y]" by auto
  have "map id' (items s') = (map id' (items s))[k := id' ?y]"
    by (simp add: s' map_update)
  also have "\<dots> = map id' (items s)"
    using k(1) by (simp add: list_update_same_conv)
  finally show ?thesis by simp
qed

lemma removeFromCart_ids:
  assumes "removeFromCart s i = Inr s'"
  shows "subseq (map id' (items s')) (map id' (items s))"
proof (cases "i \<in> id' ` set (items s)")
  case False
  then have "\<forall>item \<in> set (items s). id' item \<noteq> i" by (metis imageI)
  from removeFromCart_absent[OF this] assms show ?thesis by simp
next
  case True
  then obtain k where k: "k < length (items s)" "id' (items s ! k) = i"
      "\<forall>j < k. id' (items s ! j) \<noteq> i"
    by (rule first_with_id)
  show ?thesis
  proof (cases "quantity (items s ! k) = 1")
    case True
    with removeFromCart_present[OF k] assms
    have s': "items s' = take k (items s) @ drop (Suc k) (items s)" by auto
    have "subseq (drop (Suc k) (items s)) (items s ! k # drop (Suc k) (items s))"
      by (rule list_emb_Cons) (rule subseq_order.refl)
    then have "subseq (take k (items s) @ drop (Suc k) (items s))
                      (take k (items s) @ items s ! k # drop (Suc k) (items s))"
      by (simp add: subseq_append')
    then have "subseq (items s') (items s)"
      using k(1) by (simp add: s' id_take_nth_drop[symmetric])
    then show ?thesis by (rule subseq_map)
  next
    case False
    let ?y = "(items s ! k)\<lparr>quantity := roundToDouble (quantity (items s ! k) - 1)\<rparr>"
    from False removeFromCart_present[OF k] assms have s': "items s' = (items s)[k := ?y]" by auto
    have "map id' (items s') = (map id' (items s))[k := id' ?y]"
      by (simp add: s' map_update)
    also have "\<dots> = map id' (items s)"
      using k(1) by (simp add: list_update_same_conv)
    finally show ?thesis by simp
  qed
qed

lemma timersReducer_timers:
  "timersReducer t a = Inr t' \<Longrightarrow> timers t' = timers t \<or> (\<exists>new. timers t' = timers t @ [new])"
  by (auto simp: timersReducer_def split: if_splits option.splits)

text \<open>
  C8. For every state and action of the cart slice and of the timers reducer: after
  \<^verbatim>\<open>addToCart\<close> the identifiers of the old cart are a prefix of those of the new one, so
  they keep their places and a new item comes last; after \<^verbatim>\<open>removeFromCart\<close> the
  identifiers of the new cart are a subsequence of those of the old one, so the items
  left keep their relative order and none is new; after any timers action the old timer
  list is a prefix of the new one. Only \<^verbatim>\<open>removeFromCart\<close> can shorten a collection.
\<close>

theorem collection_order_preserved:
  "(addToCart s p = Inr s' \<longrightarrow>
      prefix (map id' (items s)) (map id' (items s')) \<and> length (items s) \<le> length (items s')) \<and>
   (removeFromCart s i = Inr s'' \<longrightarrow>
      subseq (map id' (items s'')) (map id' (items s))) \<and>
   (timersReducer t a = Inr t' \<longrightarrow>
      prefix (timers t) (timers t') \<and> length (timers t) \<le> length (timers t'))"
proof (intro conjI impI)
  assume add: "addToCart s p = Inr s'"
  from addToCart_ids[OF add] show pre: "prefix (map id' (items s)) (map id' (items s'))"
    by auto
  from prefix_length_le[OF pre] show "length (items s) \<le> length (items s')" by simp
next
  assume "removeFromCart s i = Inr s''"
  then show "subseq (map id' (items s'')) (map id' (items s))" by (rule removeFromCart_ids)
next
  assume t: "timersReducer t a = Inr t'"
  from timersReducer_timers[OF t] show "prefix (timers t) (timers t')" by auto
  from timersReducer_timers[OF t] show "length (timers t) \<le> length (timers t')" by auto
qed

theorem collection_order_preserved_witness:
  "addToCart exampleCart \<lparr>id' = ''c'', title = ''Cog'', price = 75\<rparr> =
     Inr \<lparr>items = [\<lparr>id' = ''b'', title = ''Bolt'', price = 150, quantity = 1\<rparr>,
                   \<lparr>id' = ''a'', title = ''Widget'', price = 999, quantity = 2\<rparr>,
                   \<lparr>id' = ''c'', title = ''Cog'', price = 75, quantity = 1\<rparr>]\<rparr> \<and>
   prefix (map id' (items exampleCart)) [''b'', ''a'', ''c''] \<and>
   removeFromCart exampleCart ''b'' =
     Inr \<lparr>items = [\<lparr>id' = ''a'', title = ''Widget'', price = 999, quantity = 2\<rparr>]\<rparr> \<and>
   subseq [''a''] (map id' (items exampleCart)) \<and>
   timersReducer \<lparr>isRunning = False, timers = [\<lparr>name = ''t1'', duration = 60 :: int\<rparr>]\<rparr>
                 \<lparr>type = ''ADD_TIMER'', payload = Some \<lparr>name = ''t2'', duration = 90\<rparr>\<rparr> =
     Inr \<lparr>isRunning = False, timers = [\<lparr>name = ''t1'', duration = 60\<rparr>,
                                        \<lparr>name = ''t2'', duration = 90\<rparr>]\<rparr> \<and>
   prefix [\<lparr>name = ''t1'', duration = 60 :: int\<rparr>]
          [\<lparr>name = ''t1'', duration = 60\<rparr>, \<lparr>name = ''t2'', duration = 90\<rparr>]"
proof -
  let ?s1 = "\<lparr>items = [\<lparr>id' = ''b'', title = ''Bolt'', price = 150 :: int, quantity = 1\<rparr>,
                        \<lparr>id' = ''a'', title = ''Widget'', price = 999, quantity = 2\<rparr>,
                        \<lparr>id' = ''c'', title = ''Cog'', price = 75, quantity = 1\<rparr>]\<rparr>"
  let ?s2 = "\<lparr>items = [\<lparr>id' = ''a'', title = ''Widget'', price = 999 :: int, quantity = 2\<rparr>]\<rparr>"
  let ?t = "\<lparr>isRunning = False, timers = [\<lparr>name = ''t1'', duration = 60 :: int\<rparr>]\<rparr>"
  let ?a = "\<lparr>type = ''ADD_TIMER'', payload = Some \<lparr>name = ''t2'', duration = 90 :: int\<rparr>\<rparr>"
  let ?t' = "\<lparr>isRunning = False, timers = [\<lparr>name = ''t1'', duration = 60 :: int\<rparr>,
                                            \<lparr>name = ''t2'', duration = 90\<rparr>]\<rparr>"
  have add: "addToCart exampleCart \<lparr>id' = ''c'', title = ''Cog'', price = 75\<rparr> = Inr ?s1"
    by (simp add: exampleCart_def addToCart_def findIndex_def)
  have rem: "removeFromCart exampleCart ''b'' = Inr ?s2"
    by (simp add: exampleCart_def removeFromCart_def findIndex_def at_def splice'_def)
  have tim: "timersReducer ?t ?a = Inr ?t'"
    by (simp add: timersReducer_def)
  from collection_order_preserved[where s = exampleCart and s' = ?s1 and s'' = ?s2
      and p = "\<lparr>id' = ''c'', title = ''Cog'', price = 75\<rparr>" and i = "''b''"
      and t = ?t and a = ?a and t' = ?t'] add rem tim
  show ?thesis by simp
qed

section \<open>Claims about the fetch helper\<close>

lemma get_requests: "requests (fst (get net url)) = requests net @ [url]"
  by (simp add: get_def fetch_def split: option.splits)

lemma get_no_response:
  "map_of (respond net) url = None \<Longrightarrow> snd (get net url) = Inl TypeError"
  by (simp add: get_def fetch_def)

lemma get_response:
  "map_of (respond net) url = Some r \<Longrightarrow>
     snd (get net url) = (if ok r then json r else Inl (Error ''Failed to fetch data.''))"
  by (simp add: get_def fetch_def)

text \<open>
  C9, as it is stated, fails: a response that is ok and whose body is not JSON makes
  \<^verbatim>\<open>get\<close> raise, with the error of \<^verbatim>\<open>response.json()\<close> and not with
  \<^verbatim>\<open>'Failed to fetch data.'\<close>.
\<close>

theorem get_ok_response_raises:
  "ok \<lparr>ok = True, json = (Inl SyntaxError :: error + int)\<rparr> \<and>
   snd (get \<lparr>respond = [(''/posts'', \<lparr>ok = True, json = (Inl SyntaxError :: error + int)\<rparr>)],
             requests = []\<rparr> ''/posts'') = Inl SyntaxError \<and>
   SyntaxError \<noteq> Error ''Failed to fetch data.''"
  by (simp add: get_def fetch_def)

text \<open>
  C9, amended. When \<^verbatim>\<open>fetch\<close> delivers a response, \<^verbatim>\<open>get\<close> raises if and only if the
  response is not ok or \<^verbatim>\<open>response.json()\<close> fails. For a response that is not ok the
  error is \<^verbatim>\<open>Error('Failed to fetch data.')\<close>, a message and nothing else; for a response
  that is ok \<^verbatim>\<open>get\<close> settles as \<^verbatim>\<open>response.json()\<close> does, so it returns the parsed
  body when there is one. One request is issued, and no second one.
\<close>

theorem get_raises_iff:
  "map_of (respond net) url = Some r \<Longrightarrow>
     ((\<exists>e. snd (get net url) = Inl e) \<longleftrightarrow> \<not> ok r \<or> (\<exists>e. json r = Inl e)) \<and>
     (\<not> ok r \<longrightarrow> snd (get net url) = Inl (Error ''Failed to fetch data.'')) \<and>
     (ok r \<longrightarrow> snd (get net url) = json r) \<and>
     requests (fst (get net url)) = requests net @ [url]"
  by (simp add: get_response get_requests)

theorem get_raises_iff_witness:
  "map_of (respond \<lparr>respond = [(''/posts'', \<lparr>ok = False, json = Inr (1 :: int)\<rparr>),
                                (''/users'', \<lparr>ok = True, json = Inr 2\<rparr>)],
                     requests = []\<rparr>) ''/posts'' = Some \<lparr>ok = False, json = Inr 1\<rparr> \<and>
   get \<lparr>respond = [(''/posts'', \<lparr>ok = False, json = Inr (1 :: int)\<rparr>),
                    (''/users'', \<lparr>ok = True, json = Inr 2\<rparr>)],
        requests = []\<rparr> ''/posts'' =
     (\<lparr>respond = [(''/posts'', \<lparr>ok = False, json = Inr 1\<rparr>),
                   (''/users'', \<lparr>ok = True, json = Inr 2\<rparr>)],
       requests = [''/posts'']\<rparr>,
      Inl (Error ''Failed to fetch data.'')) \<and>
   map_of (respond \<lparr>respond = [(''/posts'', \<lparr>ok = False, json = Inr (1 :: int)\<rparr>),
                                (''/users'', \<lparr>ok = True, json = Inr 2\<rparr>)],
                     requests = []\<rparr>) ''/users'' = Some \<lparr>ok = True, json = Inr 2\<rparr> \<and>
   get \<lparr>respond = [(''/posts'', \<lparr>ok = False, json = Inr (1 :: int)\<rparr>),
                    (''/users'', \<lparr>ok = True, json = Inr 2\<rparr>)],
        requests = []\<rparr> ''/users'' =
     (\<lparr>respond = [(''/posts'', \<lparr>ok = False, json = Inr 1\<rparr>),
                   (''/users'', \<lparr>ok = True, json = Inr 2\<rparr>)],
       requests = [''/users'']\<rparr>,
      Inr 2)"
proof -
  let ?net = "\<lparr>respond = [(''/posts'', \<lparr>ok = False, json = Inr (1 :: int)\<rparr>),
                           (''/users'', \<lparr>ok = True, json = Inr 2\<rparr>)],
                requests = []\<rparr>"
  have p: "map_of (respond ?net) ''/posts'' = Some \<lparr>ok = False, json = Inr 1\<rparr>" by simp
  have u: "map_of (respond ?net) ''/users'' = Some \<lparr>ok = True, json = Inr 2\<rparr>" by simp
  have fp: "fst (get ?net ''/posts'') = ?net\<lparr>requests := [''/posts'']\<rparr>"
    by (simp add: get_def fetch_def)
  have fu: "fst (get ?net ''/users'') = ?net\<lparr>requests := [''/users'']\<rparr>"
    by (simp add: get_def fetch_def)
  from get_raises_iff[OF p] have "snd (get ?net ''/posts'') = Inl (Error ''Failed to fetch data.'')"
    by simp
  with fp have gp: "get ?net ''/posts'' = (?net\<lparr>requests := [''/posts'']\<rparr>, Inl (Error ''Failed to fetch data.''))"
    by (simp add: prod_eq_iff)
  from get_raises_iff[OF u] have "snd (get ?net ''/users'') = Inr 2"
    by simp
  with fu have gu: "get ?net ''/users'' = (?net\<lparr>requests := [''/users'']\<rparr>, Inr 2)"
    by (simp add: prod_eq_iff)
  from p gp u gu show ?thesis by simp
qed

end
